theory Spec2Isabelle
  imports Main "HOL-Library.Word"
begin

section \<open>Data model of package mp4read\<close>

text \<open>
  Go's fixed-width integers are words: \<open>uint32\<close> is \<open>32 word\<close>, \<open>int64\<close> and
  \<open>uint64\<close> are \<open>64 word\<close> (signed readings use \<open>sint\<close>, \<open><s\<close>, \<open>\<le>s\<close>), and
  \<open>int\<close> is the 64-bit \<open>int\<close> of the usual targets. Slice indices and lengths
  (\<open>chunkIdx\<close>, \<open>sampleIdx\<close>, \<open>sampleEnd\<close>, \<open>len(...)\<close>, \<open>cap(...)\<close>) are \<open>nat\<close>: they
  start at 0, only grow by increments below a slice length, and a slice length is
  below \<open>2^63\<close>. A nil slice is \<open>None\<close>, a non-nil one \<open>Some xs\<close>, where the code
  tests for nil.
\<close>

type_synonym byte = "8 word"
type_synonym uint16 = "16 word"
type_synonym uint32 = "32 word"
type_synonym uint64 = "64 word"
type_synonym int64 = "64 word"
type_synonym go_int = "64 word"

text \<open>The types of \<open>github.com/abema/go-mp4\<close> that the package reads (fields used here).\<close>

record Sample =
  Size :: uint32
  TimeDelta :: uint32
  CompositionTimeOffset :: int64

record Chunk =
  DataOffset :: uint64
  SamplesPerChunk :: uint32

record AVCDecConfigInfo =
  LengthSize :: uint16
  Width :: uint16
  Height :: uint16

record Track =
  TrackID :: uint32
  Timescale :: uint32
  Duration :: uint64
  Samples :: "Sample list"
  Chunks :: "Chunk list"
  AVC :: "AVCDecConfigInfo option"

text \<open>\<open>type mp4videoRead struct\<close>: the cursor.\<close>

record mp4videoRead =
  chunkIdx :: nat
  sampleIdx :: nat
  sampleEnd :: nat
  decodingTime :: int64
  dataOffset :: int64

text \<open>
  \<open>type Mp4read struct\<close>. \<open>reader\<close> is the field \<open>r\<close> (the state of the
  \<open>io.ReadSeeker\<close>), \<open>probe\<close> the \<open>Tracks\<close> of the \<open>ProbeInfo\<close>, \<open>v_starttime\<close> the
  field \<open>_starttime\<close>. The file handle \<open>mp4fh\<close> is only used by \<open>Close\<close>.
\<close>

record 'r Mp4read =
  reader :: 'r
  probe :: "Track list"
  track :: "Track option"
  read :: mp4videoRead
  spspps :: "byte list list option"
  stss :: "uint32 list option"
  v_starttime :: go_int

text \<open>\<open>type VideoSampleInfo struct\<close>; \<open>size'\<close> is the field \<open>size\<close>, \<open>TimeDelta'\<close> the
  field \<open>TimeDelta\<close> (the name is taken by \<open>Sample\<close>).\<close>

record VideoSampleInfo =
  offset :: int64
  size' :: uint32
  NalLengthSize :: go_int
  TimeDelta' :: uint32
  Number :: int64
  CompositionTime :: int64

text \<open>
  The errors of the package, one constructor per error value the code builds; \<open>ErrIO\<close>
  stands for an error handed up from the stream or from go-mp4, \<open>NilPointerPanic\<close> for
  the run-time panic of a nil dereference.
\<close>

datatype error =
    ErrEndOfStream
  | ErrVideoTrackNotFoundId int64
  | ErrVideoTrackNotFound
  | ErrAvcCNotFound
  | ErrTrackNotFound
  | ErrOutOfRange int64
  | ErrCapacityOver uint32 go_int
  | ErrCantRead uint32 nat
  | ErrIO nat
  | NilPointerPanic

text \<open>The zero value of the cursor, as \<open>&Mp4read{...}\<close> and \<open>var idr mp4videoRead\<close> give it.\<close>

definition zero_mp4videoRead :: mp4videoRead where
  "zero_mp4videoRead =
     \<lparr>chunkIdx = 0, sampleIdx = 0, sampleEnd = 0, decodingTime = 0, dataOffset = 0\<rparr>"

section \<open>NextSample\<close>

text \<open>
  The body of the inner \<open>for\<close> of \<open>NextSample\<close> (lines 291 to 301): the record is
  written from the cursor and the sample, then the cursor moves past the sample.
\<close>

definition write_sample :: "go_int \<Rightarrow> mp4videoRead \<Rightarrow> Sample \<Rightarrow> VideoSampleInfo \<Rightarrow> VideoSampleInfo" where
  "write_sample st rd sample out =
     out\<lparr>offset := dataOffset rd,
         size' := Size sample,
         CompositionTime := decodingTime rd + CompositionTimeOffset sample - st,
         Number := of_nat (sampleIdx rd),
         TimeDelta' := TimeDelta sample\<rparr>"

definition advance_cursor :: "mp4videoRead \<Rightarrow> Sample \<Rightarrow> mp4videoRead" where
  "advance_cursor rd sample =
     rd\<lparr>sampleIdx := sampleIdx rd + 1,
        dataOffset := dataOffset rd + ucast (Size sample),
        decodingTime := decodingTime rd + ucast (TimeDelta sample)\<rparr>"

text \<open>
  The inner \<open>for\<close> loop. The result's flag is \<open>True\<close> when the loop left through
  \<open>return nil\<close> (a sample of non-zero size), \<open>False\<close> when its condition failed.
\<close>

function NextSample_samples ::
  "Sample list \<Rightarrow> go_int \<Rightarrow> mp4videoRead \<Rightarrow> VideoSampleInfo \<Rightarrow> mp4videoRead \<times> VideoSampleInfo \<times> bool"
where
  "NextSample_samples samples st rd out =
     (if sampleIdx rd < sampleEnd rd \<and> sampleIdx rd < length samples then
        let sample = samples ! sampleIdx rd;
            out' = write_sample st rd sample out;
            rd' = advance_cursor rd sample
        in if Size sample > 0 then (rd', out', True)
           else NextSample_samples samples st rd' out'
      else (rd, out, False))"
  by pat_completeness auto
termination
  by (relation "measure (\<lambda>(samples, st, rd, out). length samples - sampleIdx rd)")
     (auto simp: advance_cursor_def)

declare NextSample_samples.simps [simp del]

text \<open>Lines 286 to 289: on entering a chunk (\<open>sampleEnd == 0\<close>) the segment end and
  the data offset are set from the chunk.\<close>

definition enter_chunk :: "mp4videoRead \<Rightarrow> Chunk \<Rightarrow> mp4videoRead" where
  "enter_chunk rd chunk =
     (if sampleEnd rd = 0
      then rd\<lparr>sampleEnd := sampleIdx rd + unat (SamplesPerChunk chunk),
              dataOffset := DataOffset chunk\<rparr>
      else rd)"

text \<open>Lines 306 and 307: leaving a chunk.\<close>

definition leave_chunk :: "mp4videoRead \<Rightarrow> mp4videoRead" where
  "leave_chunk rd = rd\<lparr>sampleEnd := 0, chunkIdx := chunkIdx rd + 1\<rparr>"

lemma NextSample_samples_chunkIdx:
  "chunkIdx (fst (NextSample_samples samples st rd out)) = chunkIdx rd"
  by (induction samples st rd out rule: NextSample_samples.induct)
     (subst NextSample_samples.simps, simp add: Let_def advance_cursor_def)

text \<open>The outer \<open>for\<close> loop over the chunk table, ending in \<open>return ErrEndOfStream\<close>.\<close>

function NextSample_chunks ::
  "Track \<Rightarrow> go_int \<Rightarrow> mp4videoRead \<Rightarrow> VideoSampleInfo \<Rightarrow> mp4videoRead \<times> VideoSampleInfo \<times> error option"
where
  "NextSample_chunks t st rd out =
     (if chunkIdx rd < length (Chunks t) then
        let chunk = Chunks t ! chunkIdx rd;
            res = NextSample_samples (Samples t) st (enter_chunk rd chunk) out
        in if snd (snd res) then (fst res, fst (snd res), None)
           else NextSample_chunks t st (leave_chunk (fst res)) (fst (snd res))
      else (rd, out, Some ErrEndOfStream))"
  by pat_completeness auto
termination
  by (relation "measure (\<lambda>(t, st, rd, out). length (Chunks t) - chunkIdx rd)")
     (auto simp: leave_chunk_def enter_chunk_def NextSample_samples_chunkIdx)

declare NextSample_chunks.simps [simp del]

text \<open>
  \<open>func (v *Mp4read) NextSample(out *VideoSampleInfo) error\<close>. The result is the
  receiver, the record behind \<open>out\<close>, and the returned error (\<open>None\<close> is \<open>nil\<close>).
  \<open>SetVideoTrack\<close> only selects tracks whose \<open>AVC\<close> is not nil; on any other track
  \<open>v.track.AVC.LengthSize\<close> panics.
\<close>

definition NextSample ::
  "'r Mp4read \<Rightarrow> VideoSampleInfo \<Rightarrow> 'r Mp4read \<times> VideoSampleInfo \<times> error option"
where
  "NextSample v out =
     (case track v of
        None \<Rightarrow> (v, out, Some ErrVideoTrackNotFound)
      | Some t \<Rightarrow>
          (case AVC t of
             None \<Rightarrow> (v, out, Some NilPointerPanic)
           | Some avc \<Rightarrow>
               let out1 = out\<lparr>NalLengthSize := ucast (LengthSize avc)\<rparr>;
                   res = NextSample_chunks t (v_starttime v) (read v) out1
               in (v\<lparr>read := fst res\<rparr>, fst (snd res), snd (snd res))))"

section \<open>SetVideoTrack\<close>



section \<open>Initialize and loadTrackInfo\<close>

text \<open>
  What \<open>mp4.ExtractBoxesWithPayload\<close> hands back for the three box paths that
  \<open>loadTrackInfo\<close> asks for: a \<open>tkhd\<close> box with its track identifier, an \<open>stss\<close> box
  with its \<open>SampleNumber\<close> slice, an \<open>avcC\<close> box with the NAL units of its sequence and
  picture parameter sets.
\<close>

datatype box =
    Tkhd uint32
  | Stss "uint32 list option"
  | AvcC "byte list list" "byte list list"

text \<open>The \<open>for\<close> of \<open>loadTrackInfo\<close> over the boxes, with its local \<open>target\<close>.\<close>

fun loadTrackInfo_boxes :: "uint32 \<Rightarrow> box list \<Rightarrow> bool \<Rightarrow> 'r Mp4read \<Rightarrow> 'r Mp4read" where
  "loadTrackInfo_boxes trackid [] target v = v"
| "loadTrackInfo_boxes trackid (Tkhd tid # bips) target v =
     loadTrackInfo_boxes trackid bips (tid = trackid) v"
| "loadTrackInfo_boxes trackid (Stss sn # bips) target v =
     (if \<not> target then loadTrackInfo_boxes trackid bips target v
      else loadTrackInfo_boxes trackid bips target (v\<lparr>stss := sn\<rparr>))"
| "loadTrackInfo_boxes trackid (AvcC sps pps # bips) target v =
     (if \<not> target then loadTrackInfo_boxes trackid bips target v
      else loadTrackInfo_boxes trackid bips target (v\<lparr>spspps := Some (sps @ pps)\<rparr>))"

text \<open>
  \<open>func (v *Mp4read) loadTrackInfo(trackid uint32) error\<close>. The first argument is
  \<open>mp4.ExtractBoxesWithPayload\<close> on the stream, for the three paths.
\<close>

definition loadTrackInfo ::
  "('r \<Rightarrow> 'r \<times> (error + box list)) \<Rightarrow> 'r Mp4read \<Rightarrow> uint32 \<Rightarrow> 'r Mp4read \<times> error option"
where
  "loadTrackInfo ExtractBoxesWithPayload v trackid =
     (case ExtractBoxesWithPayload (reader v) of
        (r', Inl err) \<Rightarrow> (v\<lparr>reader := r'\<rparr>, Some err)
      | (r', Inr bips) \<Rightarrow>
          let v' = loadTrackInfo_boxes trackid bips False (v\<lparr>reader := r'\<rparr>)
          in if spspps v' = None then (v', Some ErrAvcCNotFound) else (v', None))"

text \<open>Go's built-in \<open>min\<close> on two \<open>int\<close>s.\<close>

definition min_int :: "go_int \<Rightarrow> go_int \<Rightarrow> go_int" where
  "min_int a b = (if b <s a then b else a)"

text \<open>The \<open>for\<close> of \<open>Initialize\<close> over \<open>v.track.Samples\<close> (lines 211 to 217), with its
  locals \<open>starttime\<close> and \<open>decodingTime\<close>; the result is \<open>starttime\<close> after the loop.\<close>

fun Initialize_samples :: "Sample list \<Rightarrow> go_int \<Rightarrow> go_int \<Rightarrow> go_int" where
  "Initialize_samples [] starttime decTime = starttime"
| "Initialize_samples (sample # samples) starttime decTime =
     (let starttime' = min_int starttime (decTime + CompositionTimeOffset sample)
      in if CompositionTimeOffset sample = 0 then starttime'
         else Initialize_samples samples starttime' (decTime + ucast (TimeDelta sample)))"

text \<open>\<open>func (v *Mp4read) Initialize() error\<close>.\<close>

definition Initialize ::
  "('r \<Rightarrow> 'r \<times> (error + box list)) \<Rightarrow> 'r Mp4read \<Rightarrow> 'r Mp4read \<times> error option"
where
  "Initialize ExtractBoxesWithPayload v =
     (case track v of
        None \<Rightarrow> (v, Some ErrVideoTrackNotFound)
      | Some t \<Rightarrow>
          (case loadTrackInfo ExtractBoxesWithPayload v (TrackID t) of
             (v1, Some err) \<Rightarrow> (v1, Some err)
           | (v1, None) \<Rightarrow>
               let starttime = Initialize_samples (Samples t) 2147483647 0
               in if starttime \<noteq> 2147483647 then (v1\<lparr>v_starttime := starttime\<rparr>, None)
                  else (v1, None)))"

section \<open>Seek\<close>

text \<open>
  The inner \<open>for\<close> of \<open>Seek\<close> (lines 367 to 389). \<open>ks\<close> is \<open>v.stss\<close>, \<open>cur\<close> is \<open>v.read\<close>
  on entry, \<open>chunkIndex\<close>, \<open>end'\<close> and \<open>offs\<close> are the chunk's index, \<open>end\<close> and \<open>offset\<close>;
  \<open>sampleIndex\<close>, \<open>stssIdx\<close>, \<open>decTime\<close> (the local \<open>decodingTime\<close>) and \<open>idr\<close> are the
  locals that live across chunks. \<open>Inl (rd, moved)\<close> is a \<open>return\<close> from inside the
  loop, with the value \<open>v.read\<close> has then; \<open>Inr\<close> carries the locals out of the loop.
\<close>

function Seek_samples ::
  "Sample list \<Rightarrow> uint32 list \<Rightarrow> int64 \<Rightarrow> bool \<Rightarrow> mp4videoRead \<Rightarrow> nat \<Rightarrow> nat \<Rightarrow> int64 \<Rightarrow>
   nat \<Rightarrow> nat \<Rightarrow> int64 \<Rightarrow> mp4videoRead \<Rightarrow>
   (mp4videoRead \<times> bool) + (nat \<times> nat \<times> int64 \<times> mp4videoRead)"
where
  "Seek_samples samples ks timestamp force cur chunkIndex end' offs sampleIndex stssIdx decTime idr =
     (if sampleIndex < end' \<and> sampleIndex < length samples then
        let sample = samples ! sampleIndex in
        if Size sample = 0 then
          Seek_samples samples ks timestamp force cur chunkIndex end' offs
            (sampleIndex + 1) stssIdx decTime idr
        else
          let hit = (stssIdx < length ks \<and> ks ! stssIdx = of_nat (sampleIndex + 1));
              idr' = (if hit
                      then \<lparr>chunkIdx = chunkIndex, sampleIdx = sampleIndex, sampleEnd = end',
                            decodingTime = decTime, dataOffset = offs\<rparr>
                      else idr);
              stssIdx' = (if hit then stssIdx + 1 else stssIdx);
              decTime' = decTime + ucast (TimeDelta sample)
          in if timestamp <s decTime' + CompositionTimeOffset sample then
               (if \<not> force \<and> sampleIdx idr' \<le> sampleIdx cur \<and> sampleIdx cur \<le> sampleIndex + 1
                then Inl (cur, False)
                else Inl (idr', True))
             else
               Seek_samples samples ks timestamp force cur chunkIndex end'
                 (offs + ucast (Size sample)) (sampleIndex + 1) stssIdx' decTime' idr'
      else Inr (sampleIndex, stssIdx, decTime, idr))"
  by pat_completeness auto
termination
  by (relation "measure (\<lambda>(samples, ks, timestamp, force, cur, chunkIndex, end', offs,
        sampleIndex, stssIdx, decTime, idr). length samples - sampleIndex)") auto

declare Seek_samples.simps [simp del]

text \<open>The outer \<open>for chunkIndex, chunk := range v.track.Chunks\<close>; \<open>None\<close> when the range
  is exhausted, which is where \<open>Seek\<close> returns its out-of-range error.\<close>

fun Seek_chunks ::
  "Sample list \<Rightarrow> uint32 list \<Rightarrow> int64 \<Rightarrow> bool \<Rightarrow> mp4videoRead \<Rightarrow> Chunk list \<Rightarrow> nat \<Rightarrow>
   nat \<Rightarrow> nat \<Rightarrow> int64 \<Rightarrow> mp4videoRead \<Rightarrow> (mp4videoRead \<times> bool) option"
where
  "Seek_chunks samples ks timestamp force cur [] chunkIndex sampleIndex stssIdx decTime idr = None"
| "Seek_chunks samples ks timestamp force cur (chunk # chunks) chunkIndex sampleIndex stssIdx decTime idr =
     (let end' = sampleIndex + unat (SamplesPerChunk chunk);
          offs = DataOffset chunk
      in case Seek_samples samples ks timestamp force cur chunkIndex end' offs
                sampleIndex stssIdx decTime idr of
           Inl res \<Rightarrow> Some res
         | Inr (sampleIndex', stssIdx', decTime', idr') \<Rightarrow>
             Seek_chunks samples ks timestamp force cur chunks (chunkIndex + 1)
               sampleIndex' stssIdx' decTime' idr')"

text \<open>
  Lines 346 to 356: the keyframe index is built when \<open>v.stss\<close> is nil. The first
  argument is \<open>mp4.FindIDRFrames\<close> on the stream and the track; it gives 0-based sample
  indices, stored 1-based as \<open>uint32\<close>.
\<close>

definition Seek_stss ::
  "('r \<Rightarrow> Track \<Rightarrow> 'r \<times> (error + go_int list)) \<Rightarrow> 'r Mp4read \<Rightarrow> Track \<Rightarrow>
   ('r Mp4read \<times> error) + ('r Mp4read \<times> uint32 list)"
where
  "Seek_stss FindIDRFrames v t =
     (case stss v of
        Some ks \<Rightarrow> Inr (v, ks)
      | None \<Rightarrow>
          (case FindIDRFrames (reader v) t of
             (r', Inl err) \<Rightarrow> Inl (v\<lparr>reader := r'\<rparr>, err)
           | (r', Inr frames) \<Rightarrow>
               let ks = map (\<lambda>f. ucast f + 1) frames
               in Inr (v\<lparr>reader := r', stss := Some ks\<rparr>, ks)))"

text \<open>\<open>func (v *Mp4read) Seek(timestamp int64, force bool) (bool, error)\<close>.\<close>

definition Seek ::
  "('r \<Rightarrow> Track \<Rightarrow> 'r \<times> (error + go_int list)) \<Rightarrow> 'r Mp4read \<Rightarrow> int64 \<Rightarrow> bool \<Rightarrow>
   'r Mp4read \<times> (error + bool)"
where
  "Seek FindIDRFrames v timestamp force =
     (case track v of
        None \<Rightarrow> (v, Inl ErrTrackNotFound)
      | Some t \<Rightarrow>
          (case Seek_stss FindIDRFrames v t of
             Inl (v1, err) \<Rightarrow> (v1, Inl err)
           | Inr (v1, ks) \<Rightarrow>
               let timestamp' = timestamp + v_starttime v1
               in (case Seek_chunks (Samples t) ks timestamp' force (read v1) (Chunks t) 0
                          0 0 0 zero_mp4videoRead of
                     Some (rd, moved) \<Rightarrow> (v1\<lparr>read := rd\<rparr>, Inr moved)
                   | None \<Rightarrow> (v1, Inl (ErrOutOfRange timestamp')))))"

subsection \<open>The scan of Seek on its own\<close>

text \<open>
  The two loops of \<open>Seek\<close> again, stopped at the comparison of line 381 before the
  decision of lines 382 to 386: \<open>Inl (idr, sampleIndex)\<close> is the candidate keyframe
  position and the index of the matching sample at that point.
\<close>

function Seek_match_samples ::
  "Sample list \<Rightarrow> uint32 list \<Rightarrow> int64 \<Rightarrow> nat \<Rightarrow> nat \<Rightarrow> int64 \<Rightarrow>
   nat \<Rightarrow> nat \<Rightarrow> int64 \<Rightarrow> mp4videoRead \<Rightarrow>
   (mp4videoRead \<times> nat) + (nat \<times> nat \<times> int64 \<times> mp4videoRead)"
where
  "Seek_match_samples samples ks timestamp chunkIndex end' offs sampleIndex stssIdx decTime idr =
     (if sampleIndex < end' \<and> sampleIndex < length samples then
        let sample = samples ! sampleIndex in
        if Size sample = 0 then
          Seek_match_samples samples ks timestamp chunkIndex end' offs
            (sampleIndex + 1) stssIdx decTime idr
        else
          let hit = (stssIdx < length ks \<and> ks ! stssIdx = of_nat (sampleIndex + 1));
              idr' = (if hit
                      then \<lparr>chunkIdx = chunkIndex, sampleIdx = sampleIndex, sampleEnd = end',
                            decodingTime = decTime, dataOffset = offs\<rparr>
                      else idr);
              stssIdx' = (if hit then stssIdx + 1 else stssIdx);
              decTime' = decTime + ucast (TimeDelta sample)
          in if timestamp <s decTime' + CompositionTimeOffset sample then Inl (idr', sampleIndex)
             else
               Seek_match_samples samples ks timestamp chunkIndex end'
                 (offs + ucast (Size sample)) (sampleIndex + 1) stssIdx' decTime' idr'
      else Inr (sampleIndex, stssIdx, decTime, idr))"
  by pat_completeness auto
termination
  by (relation "measure (\<lambda>(samples, ks, timestamp, chunkIndex, end', offs,
        sampleIndex, stssIdx, decTime, idr). length samples - sampleIndex)") auto

declare Seek_match_samples.simps [simp del]

fun Seek_match_chunks ::
  "Sample list \<Rightarrow> uint32 list \<Rightarrow> int64 \<Rightarrow> Chunk list \<Rightarrow> nat \<Rightarrow>
   nat \<Rightarrow> nat \<Rightarrow> int64 \<Rightarrow> mp4videoRead \<Rightarrow> (mp4videoRead \<times> nat) option"
where
  "Seek_match_chunks samples ks timestamp [] chunkIndex sampleIndex stssIdx decTime idr = None"
| "Seek_match_chunks samples ks timestamp (chunk # chunks) chunkIndex sampleIndex stssIdx decTime idr =
     (let end' = sampleIndex + unat (SamplesPerChunk chunk);
          offs = DataOffset chunk
      in case Seek_match_samples samples ks timestamp chunkIndex end' offs
                sampleIndex stssIdx decTime idr of
           Inl res \<Rightarrow> Some res
         | Inr (sampleIndex', stssIdx', decTime', idr') \<Rightarrow>
             Seek_match_chunks samples ks timestamp chunks (chunkIndex + 1)
               sampleIndex' stssIdx' decTime' idr')"

text \<open>The scan from the start of the track, as \<open>Seek\<close> runs it.\<close>

definition Seek_match :: "Track \<Rightarrow> uint32 list \<Rightarrow> int64 \<Rightarrow> (mp4videoRead \<times> nat) option" where
  "Seek_match t ks timestamp =
     Seek_match_chunks (Samples t) ks timestamp (Chunks t) 0 0 0 0 zero_mp4videoRead"

section \<open>ReadMdatAtSample\<close>

text \<open>
  A byte slice: the identity of its backing array, its length, and the bytes of the
  backing array from the slice's start, so that \<open>cap\<close> is their number.
\<close>

record slice =
  array :: nat
  len :: nat
  backing :: "byte list"

definition cap :: "slice \<Rightarrow> nat" where
  "cap buf = length (backing buf)"

text \<open>\<open>make([]byte, n)\<close> at the array \<open>fresh\<close> that the allocator hands out, and \<open>buf[:n]\<close>.\<close>

definition make_bytes :: "nat \<Rightarrow> nat \<Rightarrow> slice" where
  "make_bytes fresh n = \<lparr>array = fresh, len = n, backing = replicate n 0\<rparr>"

definition reslice :: "slice \<Rightarrow> nat \<Rightarrow> slice" where
  "reslice buf n = buf\<lparr>len := n\<rparr>"

text \<open>
  \<open>func (v *Mp4read) ReadMdatAtSample(info *VideoSampleInfo, buf []byte) ([]byte, error)\<close>.
  The parameters before \<open>v\<close>: the package variable \<open>MemoryLimitSampleCapacity\<close>; \<open>v.r.Seek\<close>
  with \<open>io.SeekStart\<close>, giving the stream after the call and its error; \<open>io.ReadFull\<close> on
  \<open>v.r\<close> for a slice of the given length, giving the stream, the bytes read (\<open>n\<close> is
  their number) and its error; the array a \<open>make\<close> would return. The conversions
  \<open>uint32(MemoryLimitSampleCapacity)\<close> and \<open>uint32(cap(buf))\<close> keep the low 32 bits.
\<close>

definition ReadMdatAtSample ::
  "go_int \<Rightarrow> ('r \<Rightarrow> int64 \<Rightarrow> 'r \<times> error option) \<Rightarrow> ('r \<Rightarrow> nat \<Rightarrow> 'r \<times> byte list \<times> error option) \<Rightarrow>
   nat \<Rightarrow> 'r Mp4read \<Rightarrow> VideoSampleInfo \<Rightarrow> slice \<Rightarrow> 'r Mp4read \<times> slice \<times> error option"
where
  "ReadMdatAtSample MemoryLimitSampleCapacity rSeek ReadFull fresh v info buf =
     (if size' info > ucast MemoryLimitSampleCapacity then
        (v, buf, Some (ErrCapacityOver (size' info) MemoryLimitSampleCapacity))
      else
        (case rSeek (reader v) (offset info) of
           (r1, Some err) \<Rightarrow> (v\<lparr>reader := r1\<rparr>, buf, Some err)
         | (r1, None) \<Rightarrow>
             let avc = (if size' info > of_nat (cap buf)
                        then make_bytes fresh (unat (size' info))
                        else reslice buf (unat (size' info)))
             in (case ReadFull r1 (len avc) of
                   (r2, bytes, err) \<Rightarrow>
                     let avc' = avc\<lparr>backing := bytes @ drop (length bytes) (backing avc)\<rparr>
                     in (case err of
                           Some e \<Rightarrow> (v\<lparr>reader := r2\<rparr>, avc', Some e)
                         | None \<Rightarrow>
                             if length bytes \<noteq> unat (size' info)
                             then (v\<lparr>reader := r2\<rparr>, avc',
                                   Some (ErrCantRead (size' info) (length bytes)))
                             else (v\<lparr>reader := r2\<rparr>, avc', None)))))"

text \<open>
  A stream for the examples: the bytes of a file and a position. \<open>file_Seek\<close> refuses a
  negative offset; \<open>file_ReadFull\<close> reads up to \<open>n\<close> bytes from the position and
  reports an error when fewer are left.
\<close>

record file_stream =
  contents :: "byte list"
  position :: nat

definition file_Seek :: "file_stream \<Rightarrow> int64 \<Rightarrow> file_stream \<times> error option" where
  "file_Seek s off =
     (if off <s 0 then (s, Some (ErrIO 1)) else (s\<lparr>position := unat off\<rparr>, None))"

definition file_ReadFull :: "file_stream \<Rightarrow> nat \<Rightarrow> file_stream \<times> byte list \<times> error option" where
  "file_ReadFull s n =
     (let bytes = take n (drop (position s) (contents s))
      in (s\<lparr>position := position s + length bytes\<rparr>, bytes,
          if length bytes = n then None else Some (ErrIO 2)))"

section \<open>The samples one call of NextSample passes\<close>






text \<open>\<open>n\<close> calls of \<open>NextSample\<close> in a row on the same reader and record: the reader and
  record after them, and the samples they pass.\<close>

fun NextSample_calls :: "nat \<Rightarrow> 'r Mp4read \<Rightarrow> VideoSampleInfo \<Rightarrow> 'r Mp4read \<times> VideoSampleInfo" where
  "NextSample_calls 0 v out = (v, out)"
| "NextSample_calls (Suc n) v out =
     (let res = NextSample v out in NextSample_calls n (fst res) (fst (snd res)))"



text \<open>The decode time of sample \<open>n\<close>: the sum of the deltas of all samples before it,
  those of size zero included.\<close>

definition decode_time :: "Sample list \<Rightarrow> nat \<Rightarrow> int64" where
  "decode_time samples n = sum_list (map (\<lambda>s. ucast (TimeDelta s)) (take n samples))"

text \<open>
  The matching sample of a seek as the specification of the seek engine words it: a
  sample of non-zero size whose accumulated decode time (the deltas of all samples up to
  and including it, as the sample cursor accumulates them) plus its composition offset
  is strictly above the adjusted target.
\<close>

definition spec_matches :: "Sample list \<Rightarrow> int64 \<Rightarrow> nat \<Rightarrow> bool" where
  "spec_matches samples timestamp i =
     (i < length samples \<and> Size (samples ! i) \<noteq> 0 \<and>
      timestamp <s decode_time samples (i + 1) + CompositionTimeOffset (samples ! i))"

section \<open>Predicates for the properties of NextSample\<close>

text \<open>The record \<open>out'\<close> holds the sample just before the cursor \<open>rd'\<close>: what lines 294
  to 297 wrote for it (the offset apart), read back from the cursor after line 301.\<close>

definition holds_sample :: "Sample list \<Rightarrow> go_int \<Rightarrow> mp4videoRead \<Rightarrow> VideoSampleInfo \<Rightarrow> bool" where
  "holds_sample samples st rd' out' =
     (0 < sampleIdx rd' \<and> sampleIdx rd' \<le> length samples \<and>
      size' out' = Size (samples ! (sampleIdx rd' - 1)) \<and>
      Number out' = of_nat (sampleIdx rd' - 1) \<and>
      TimeDelta' out' = TimeDelta (samples ! (sampleIdx rd' - 1)) \<and>
      CompositionTime out' =
        decodingTime rd' - ucast (TimeDelta (samples ! (sampleIdx rd' - 1)))
          + CompositionTimeOffset (samples ! (sampleIdx rd' - 1)) - st)"







text \<open>The samples \<open>tr\<close> are the samples \<open>i\<close>, \<open>i + 1\<close>, ... of the table, by number and size.\<close>

definition visits_from :: "Sample list \<Rightarrow> nat \<Rightarrow> (nat \<times> VideoSampleInfo) list \<Rightarrow> bool" where
  "visits_from samples i tr =
     (\<forall>k < length tr. Number (snd (tr ! k)) = of_nat (i + k) \<and>
                      size' (snd (tr ! k)) = Size (samples ! (i + k)))"

section \<open>Example tracks\<close>

text \<open>
  The track of the concrete scenario: timescale 90000, three chunks of two samples,
  every decode-time delta 3000, composition offsets 0, 3000, -3000, 0, 3000, -3000.
  Sizes and chunk offsets are not given there; every sample has 100 bytes here.
\<close>

definition scenario_track :: Track where
  "scenario_track =
     \<lparr>TrackID = 1, Timescale = 90000, Duration = 18000,
      Samples = map (\<lambda>c. \<lparr>Size = 100, TimeDelta = 3000, CompositionTimeOffset = c\<rparr>)
                  [0, 3000, - 3000, 0, 3000, - 3000],
      Chunks = [\<lparr>DataOffset = 1000, SamplesPerChunk = 2\<rparr>,
                \<lparr>DataOffset = 2000, SamplesPerChunk = 2\<rparr>,
                \<lparr>DataOffset = 3000, SamplesPerChunk = 2\<rparr>],
      AVC = Some \<lparr>LengthSize = 4, Width = 640, Height = 480\<rparr>\<rparr>"

text \<open>A reader on that track with a fresh cursor and the keyframe index 1, 4.\<close>

definition scenario_reader :: "unit Mp4read" where
  "scenario_reader =
     \<lparr>reader = (), probe = [scenario_track], track = Some scenario_track,
      read = zero_mp4videoRead, spspps = Some [[103], [104]], stss = Some [1, 4],
      v_starttime = 0\<rparr>"

text \<open>The same reader after five samples have been read.\<close>

definition scenario_reader_at5 :: "unit Mp4read" where
  "scenario_reader_at5 =
     scenario_reader\<lparr>read := \<lparr>chunkIdx = 2, sampleIdx = 5, sampleEnd = 6,
                                 decodingTime = 15000, dataOffset = 3100\<rparr>\<rparr>"

text \<open>What \<open>ExtractBoxesWithPayload\<close> finds for the scenario track.\<close>

definition scenario_ExtractBoxes :: "unit \<Rightarrow> unit \<times> (error + box list)" where
  "scenario_ExtractBoxes r = (r, Inr [Tkhd 1, Stss (Some [1, 4]), AvcC [[103]] [[104]]])"

text \<open>
  A track with samples of size zero: four samples of sizes 100, 0, 100, 0 in two chunks
  of two, every delta 3000, no composition offsets; keyframes are samples 1 and 3
  (1-based).
\<close>

definition gap_track :: Track where
  "gap_track =
     \<lparr>TrackID = 2, Timescale = 90000, Duration = 12000,
      Samples = map (\<lambda>n. \<lparr>Size = n, TimeDelta = 3000, CompositionTimeOffset = 0\<rparr>)
                  [100, 0, 100, 0],
      Chunks = [\<lparr>DataOffset = 1000, SamplesPerChunk = 2\<rparr>,
                \<lparr>DataOffset = 2000, SamplesPerChunk = 2\<rparr>],
      AVC = Some \<lparr>LengthSize = 4, Width = 640, Height = 480\<rparr>\<rparr>"

definition gap_reader :: "unit Mp4read" where
  "gap_reader =
     \<lparr>reader = (), probe = [scenario_track, gap_track], track = Some gap_track,
      read = zero_mp4videoRead, spspps = Some [], stss = Some [1, 3], v_starttime = 0\<rparr>"

text \<open>A record as a caller declares it, \<open>var info VideoSampleInfo\<close>.\<close>

definition zero_VideoSampleInfo :: VideoSampleInfo where
  "zero_VideoSampleInfo =
     \<lparr>offset = 0, size' = 0, NalLengthSize = 0, TimeDelta' = 0, Number = 0,
      CompositionTime = 0\<rparr>"

text \<open>The reader on the track with zero-size samples after its first and after its
  second successful read, and at the end of the stream; the records these reads give.\<close>

definition gap_reader_at1 :: "unit Mp4read" where
  "gap_reader_at1 =
     gap_reader\<lparr>read := \<lparr>chunkIdx = 0, sampleIdx = 1, sampleEnd = 2,
                            decodingTime = 3000, dataOffset = 1100\<rparr>\<rparr>"

definition gap_reader_at3 :: "unit Mp4read" where
  "gap_reader_at3 =
     gap_reader\<lparr>read := \<lparr>chunkIdx = 1, sampleIdx = 3, sampleEnd = 4,
                            decodingTime = 9000, dataOffset = 2100\<rparr>\<rparr>"

definition gap_reader_end :: "unit Mp4read" where
  "gap_reader_end =
     gap_reader\<lparr>read := \<lparr>chunkIdx = 2, sampleIdx = 4, sampleEnd = 0,
                            decodingTime = 12000, dataOffset = 2100\<rparr>\<rparr>"

definition gap_sample0 :: VideoSampleInfo where
  "gap_sample0 =
     \<lparr>offset = 1000, size' = 100, NalLengthSize = 4, TimeDelta' = 3000, Number = 0,
      CompositionTime = 0\<rparr>"

definition gap_sample2 :: VideoSampleInfo where
  "gap_sample2 =
     \<lparr>offset = 2000, size' = 100, NalLengthSize = 4, TimeDelta' = 3000, Number = 2,
      CompositionTime = 6000\<rparr>"

definition gap_sample3 :: VideoSampleInfo where
  "gap_sample3 =
     \<lparr>offset = 2100, size' = 0, NalLengthSize = 4, TimeDelta' = 3000, Number = 3,
      CompositionTime = 9000\<rparr>"

text \<open>
  A track with a zero-size sample between two keyframe groups: four samples of sizes
  100, 0, 100, 100 in two chunks of two, every delta 3000, no composition offsets; the
  only keyframe is sample 1 (1-based). The reader on it with a fresh cursor, and after
  its three samples of non-zero size have been read.
\<close>

definition skip_track :: Track where
  "skip_track =
     \<lparr>TrackID = 3, Timescale = 90000, Duration = 12000,
      Samples = map (\<lambda>n. \<lparr>Size = n, TimeDelta = 3000, CompositionTimeOffset = 0\<rparr>)
                  [100, 0, 100, 100],
      Chunks = [\<lparr>DataOffset = 1000, SamplesPerChunk = 2\<rparr>,
                \<lparr>DataOffset = 2000, SamplesPerChunk = 2\<rparr>],
      AVC = Some \<lparr>LengthSize = 4, Width = 640, Height = 480\<rparr>\<rparr>"

definition skip_reader :: "unit Mp4read" where
  "skip_reader =
     \<lparr>reader = (), probe = [skip_track], track = Some skip_track,
      read = zero_mp4videoRead, spspps = Some [], stss = Some [1], v_starttime = 0\<rparr>"

definition skip_reader_at4 :: "unit Mp4read" where
  "skip_reader_at4 =
     skip_reader\<lparr>read := \<lparr>chunkIdx = 1, sampleIdx = 4, sampleEnd = 4,
                             decodingTime = 12000, dataOffset = 2200\<rparr>\<rparr>"

text \<open>A \<open>FindIDRFrames\<close> that fails.\<close>

definition failing_FindIDRFrames :: "unit \<Rightarrow> Track \<Rightarrow> unit \<times> (error + go_int list)" where
  "failing_FindIDRFrames r t = (r, Inl (ErrIO 0))"

text \<open>
  A reader as \<open>NewFromReadSeeker\<close> leaves it on a file with both tracks (the first video
  track selected, nothing loaded yet), and the same reader later: initialised, five
  samples read.
\<close>

definition scenario_opened :: "unit Mp4read" where
  "scenario_opened =
     \<lparr>reader = (), probe = [scenario_track, gap_track], track = Some scenario_track,
      read = zero_mp4videoRead, spspps = None, stss = None, v_starttime = 0\<rparr>"


text \<open>A reader on a stream of eight bytes, and a buffer of capacity four.\<close>

definition file_reader :: "file_stream Mp4read" where
  "file_reader =
     \<lparr>reader = \<lparr>contents = [1, 2, 3, 4, 5, 6, 7, 8], position = 0\<rparr>,
      probe = [scenario_track], track = Some scenario_track,
      read = zero_mp4videoRead, spspps = None, stss = None, v_starttime = 0\<rparr>"

definition small_buf :: slice where
  "small_buf = \<lparr>array = 3, len = 0, backing = [0, 0, 0, 0]\<rparr>"

section \<open>Properties of Seek\<close>

lemma Seek_samples_match:
  "Seek_samples samples ks ts force cur ci e offs si ki dt idr =
     (case Seek_match_samples samples ks ts ci e offs si ki dt idr of
        Inl (idr', m) \<Rightarrow>
          (if \<not> force \<and> sampleIdx idr' \<le> sampleIdx cur \<and> sampleIdx cur \<le> m + 1
           then Inl (cur, False) else Inl (idr', True))
      | Inr l \<Rightarrow> Inr l)"
proof (induction samples ks ts ci e offs si ki dt idr rule: Seek_match_samples.induct)
  case (1 samples ks ts ci e offs si ki dt idr)
  show ?case
    apply (subst Seek_samples.simps)
    apply (subst Seek_match_samples.simps)
    using 1
    apply (simp add: Let_def)
    done
qed

lemma Seek_chunks_match:
  "Seek_chunks samples ks ts force cur chunks ci si ki dt idr =
     (case Seek_match_chunks samples ks ts chunks ci si ki dt idr of
        Some (idr', m) \<Rightarrow>
          (if \<not> force \<and> sampleIdx idr' \<le> sampleIdx cur \<and> sampleIdx cur \<le> m + 1
           then Some (cur, False) else Some (idr', True))
      | None \<Rightarrow> None)"
proof (induction chunks arbitrary: ci si ki dt idr)
  case Nil
  show ?case by simp
next
  case (Cons chunk chunks)
  show ?case
    by (simp add: Let_def Seek_samples_match Cons split: sum.splits prod.splits)
qed

lemma Seek_stss_frame:
  "Seek_stss F v t = Inr (v1, ks) \<Longrightarrow>
     read v1 = read v \<and> v_starttime v1 = v_starttime v \<and> track v1 = track v \<and> stss v1 = Some ks"
  "Seek_stss F v t = Inl (v2, err) \<Longrightarrow> read v2 = read v"
  by (auto simp: Seek_stss_def Let_def split: option.splits prod.splits sum.splits)

text \<open>
  C1, evaluated. On the track with sizes 100, 0, 100, 100 and the target 7000 the first
  sample of non-zero size whose accumulated decode time plus composition offset is
  above the target is sample 2 (decode time 9000 after it); the candidate keyframe is
  sample 0. With the cursor at 4, after all samples have been read, 4 is not within 0
  .. 2 + 1, so the unforced seek has to move the cursor to the candidate and return
  true. The scan of \<open>Seek\<close> leaves the delta of the zero-size sample 1 out, finds its
  match only at sample 3, and since 4 is within 0 .. 3 + 1 it returns false and leaves
  the cursor where it is. The forced seek shows the candidate.
\<close>

theorem Seek_suppresses_past_match:
  "fst (NextSample_calls 3 skip_reader zero_VideoSampleInfo) = skip_reader_at4 \<and>
   \<not> spec_matches (Samples skip_track) (7000 + v_starttime skip_reader_at4) 0 \<and>
   \<not> spec_matches (Samples skip_track) (7000 + v_starttime skip_reader_at4) 1 \<and>
   spec_matches (Samples skip_track) (7000 + v_starttime skip_reader_at4) 2 \<and>
   decode_time (Samples skip_track) (2 + 1) = 9000 \<and>
   Seek failing_FindIDRFrames skip_reader_at4 7000 True =
     (skip_reader_at4\<lparr>read := \<lparr>chunkIdx = 0, sampleIdx = 0, sampleEnd = 2,
        decodingTime = 0, dataOffset = 1000\<rparr>\<rparr>, Inr True) \<and>
   sampleIdx (read skip_reader_at4) = 4 \<and>
   \<not> sampleIdx (read skip_reader_at4) \<le> 2 + 1 \<and>
   Seek failing_FindIDRFrames skip_reader_at4 7000 False = (skip_reader_at4, Inr False) \<and>
   Seek_match skip_track [1] (7000 + v_starttime skip_reader_at4) =
     Some (\<lparr>chunkIdx = 0, sampleIdx = 0, sampleEnd = 2, decodingTime = 0,
            dataOffset = 1000\<rparr>, 3)"
  by code_simp

text \<open>
  C6. Whenever \<open>Seek\<close> returns an error, the cursor \<open>v.read\<close> is what it was before the
  call. The error is one of three: no track is selected; \<open>FindIDRFrames\<close> failed while
  the keyframe index was built; or the scan found no match, and the error is the
  out-of-range one.
\<close>

theorem Seek_error_keeps_cursor:
  assumes "Seek F v timestamp force = (v', Inl err)"
  shows "read v' = read v \<and>
         ((track v = None \<and> err = ErrTrackNotFound) \<or>
          (\<exists>t. track v = Some t \<and>
             (Seek_stss F v t = Inl (v', err) \<or>
              (\<exists>ks. Seek_stss F v t = Inr (v', ks) \<and>
                 Seek_match t ks (timestamp + v_starttime v) = None \<and>
                 err = ErrOutOfRange (timestamp + v_starttime v)))))"
proof (cases "track v")
  case None
  then show ?thesis using assms by (simp add: Seek_def)
next
  case (Some t)
  show ?thesis
  proof (cases "Seek_stss F v t")
    case (Inl a)
    then show ?thesis using assms Some Seek_stss_frame(2)[of F v t "fst a" "snd a"]
      by (auto simp: Seek_def split: prod.splits)
  next
    case (Inr b)
    obtain v1 ks where b: "b = (v1, ks)" by (cases b) auto
    have fr: "read v1 = read v" "v_starttime v1 = v_starttime v"
      using Seek_stss_frame(1)[of F v t v1 ks] Inr b by simp_all
    have none: "Seek_chunks (Samples t) ks (timestamp + v_starttime v) force (read v1) (Chunks t)
            0 0 0 0 zero_mp4videoRead = None"
      and res: "v' = v1" "err = ErrOutOfRange (timestamp + v_starttime v)"
      using assms Some Inr b fr
      by (auto simp: Seek_def Let_def split: option.splits prod.splits)
    have "Seek_match t ks (timestamp + v_starttime v) = None"
      using none by (auto simp: Seek_chunks_match Seek_match_def split: option.splits if_splits)
    then show ?thesis using Some Inr b fr res by simp
  qed
qed

text \<open>On the scenario track the target 18000 is past every sample: the seek fails out
  of range. Without a keyframe index and with a failing \<open>FindIDRFrames\<close> it fails with
  that error. The cursor after five samples is kept both times.\<close>

theorem Seek_error_keeps_cursor_witness:
  "Seek failing_FindIDRFrames scenario_reader_at5 18000 False
     = (scenario_reader_at5, Inl (ErrOutOfRange 18000)) \<and>
   Seek failing_FindIDRFrames (scenario_reader_at5\<lparr>stss := None\<rparr>) 18000 False
     = (scenario_reader_at5\<lparr>stss := None\<rparr>, Inl (ErrIO 0)) \<and>
   read (scenario_reader_at5\<lparr>stss := None\<rparr>) = read scenario_reader_at5"
proof -
  have e1: "Seek failing_FindIDRFrames scenario_reader_at5 18000 False
     = (scenario_reader_at5, Inl (ErrOutOfRange 18000))"
    by code_simp
  have e2: "Seek failing_FindIDRFrames (scenario_reader_at5\<lparr>stss := None\<rparr>) 18000 False
     = (scenario_reader_at5\<lparr>stss := None\<rparr>, Inl (ErrIO 0))"
    by code_simp
  have keep: "read (scenario_reader_at5\<lparr>stss := None\<rparr>) = read scenario_reader_at5"
    using Seek_error_keeps_cursor[OF e1] Seek_error_keeps_cursor[OF e2] by simp
  show ?thesis
    by (intro conjI e1 e2 keep)
qed

text \<open>The scan of \<open>Seek\<close> passes a sample of size zero without touching its locals other
  than \<open>sampleIndex\<close>: the \<open>continue\<close> of line 370 comes before line 380.\<close>

lemma Seek_samples_zero_size:
  assumes "sampleIndex < end'" "sampleIndex < length samples" "Size (samples ! sampleIndex) = 0"
  shows "Seek_samples samples ks timestamp force cur chunkIndex end' offs sampleIndex stssIdx decTime idr =
         Seek_samples samples ks timestamp force cur chunkIndex end' offs (sampleIndex + 1) stssIdx decTime idr"
  using assms by (subst Seek_samples.simps) simp

text \<open>
  C4, evaluated. On the track with sizes 100, 0, 100, 0 a forced seek to 4000 lands on
  the keyframe at sample 2 with decode time 3000: the delta of the zero-size sample 1
  is missing. Reading on from there gives sample 2 the composition time 3000, where
  reading from the start gives the same sample 6000.
\<close>

theorem Seek_drops_zero_size_delta:
  "Seek failing_FindIDRFrames gap_reader 4000 True =
     (gap_reader\<lparr>read := \<lparr>chunkIdx = 1, sampleIdx = 2, sampleEnd = 4, decodingTime = 3000,
                            dataOffset = 2000\<rparr>\<rparr>, Inr True) \<and>
   Number (fst (snd (NextSample (fst (Seek failing_FindIDRFrames gap_reader 4000 True))
      zero_VideoSampleInfo))) = 2 \<and>
   CompositionTime (fst (snd (NextSample (fst (Seek failing_FindIDRFrames gap_reader 4000 True))
      zero_VideoSampleInfo))) = 3000 \<and>
   Number (snd (NextSample_calls 2 gap_reader zero_VideoSampleInfo)) = 2 \<and>
   CompositionTime (snd (NextSample_calls 2 gap_reader zero_VideoSampleInfo)) = 6000 \<and>
   decodingTime (read (fst (NextSample_calls 1 gap_reader zero_VideoSampleInfo)))
     + ucast (TimeDelta (Samples gap_track ! 1)) = 6000"
  by code_simp

section \<open>Properties of Initialize\<close>

lemma min_int_first: "min_int 2147483647 0 = 0"
  by (simp add: min_int_def word_sless_alt)

lemma Initialize_samples_zero_first:
  "CompositionTimeOffset s = 0 \<Longrightarrow> Initialize_samples (s # ss) 2147483647 0 = 0"
  by (simp add: min_int_first)

text \<open>
  C5, as the code has it. On a track of the scenario (timescale 90000, three chunks of
  two samples, deltas 3000, composition offsets 0, 3000, -3000, 0, 3000, -3000) a
  successful \<open>Initialize\<close> leaves \<open>_starttime\<close> at 0: the first sample has composition
  offset zero, so the scan stops there with the minimum 0 + 0.
\<close>

theorem Initialize_scenario_starttime:
  assumes "track v = Some t"
    and "Timescale t = 90000"
    and "map SamplesPerChunk (Chunks t) = [2, 2, 2]"
    and "map TimeDelta (Samples t) = [3000, 3000, 3000, 3000, 3000, 3000]"
    and "map CompositionTimeOffset (Samples t) = [0, 3000, - 3000, 0, 3000, - 3000]"
    and "Initialize E v = (v', None)"
  shows "v_starttime v' = 0"
proof -
  obtain s ss where ss: "Samples t = s # ss" "CompositionTimeOffset s = 0"
    using assms(5) by (cases "Samples t") auto
  have st: "Initialize_samples (Samples t) 2147483647 0 = 0"
    using ss by (simp only: Initialize_samples_zero_first)
  obtain v1 e1 where l: "loadTrackInfo E v (TrackID t) = (v1, e1)"
    by (cases "loadTrackInfo E v (TrackID t)") auto
  show ?thesis
    using assms(1,6) l st
    by (cases e1) (auto simp: Initialize_def Let_def)
qed

text \<open>On the scenario track itself \<open>Initialize\<close> succeeds and \<open>_starttime\<close> is not -3000.\<close>

theorem Initialize_scenario_starttime_counterexample:
  "snd (Initialize scenario_ExtractBoxes scenario_opened) = None \<and>
   v_starttime (fst (Initialize scenario_ExtractBoxes scenario_opened)) \<noteq> - 3000"
  by code_simp

theorem Initialize_scenario_starttime_witness:
  "track scenario_opened = Some scenario_track \<and>
   Timescale scenario_track = 90000 \<and>
   map SamplesPerChunk (Chunks scenario_track) = [2, 2, 2] \<and>
   map TimeDelta (Samples scenario_track) = [3000, 3000, 3000, 3000, 3000, 3000] \<and>
   map CompositionTimeOffset (Samples scenario_track) = [0, 3000, - 3000, 0, 3000, - 3000] \<and>
   Initialize scenario_ExtractBoxes scenario_opened =
     (scenario_opened\<lparr>spspps := Some [[103], [104]], stss := Some [1, 4]\<rparr>, None) \<and>
   v_starttime (scenario_opened\<lparr>spspps := Some [[103], [104]], stss := Some [1, 4]\<rparr>) = 0"
proof -
  have h1: "track scenario_opened = Some scenario_track"
    by (simp add: scenario_opened_def)
  have h2: "Timescale scenario_track = 90000"
    by (simp add: scenario_track_def)
  have h3: "map SamplesPerChunk (Chunks scenario_track) = [2, 2, 2]"
    by (simp add: scenario_track_def)
  have h4: "map TimeDelta (Samples scenario_track) = [3000, 3000, 3000, 3000, 3000, 3000]"
    by (simp add: scenario_track_def)
  have h5: "map CompositionTimeOffset (Samples scenario_track) = [0, 3000, - 3000, 0, 3000, - 3000]"
    by (simp add: scenario_track_def)
  have h6: "Initialize scenario_ExtractBoxes scenario_opened =
     (scenario_opened\<lparr>spspps := Some [[103], [104]], stss := Some [1, 4]\<rparr>, None)"
    by code_simp
  show ?thesis
    using Initialize_scenario_starttime[OF h1 h2 h3 h4 h5 h6] h1 h2 h3 h4 h5 h6 by simp
qed

section \<open>Properties of SetVideoTrack\<close>




section \<open>Properties of ReadMdatAtSample\<close>

text \<open>The capacity check compares the size with the low 32 bits of the limit, and a
  refused call leaves the stream and the buffer alone.\<close>

lemma ReadMdatAtSample_capacity:
  "size' info > ucast limit \<Longrightarrow>
   ReadMdatAtSample limit rSeek ReadFull fresh v info buf =
     (v, buf, Some (ErrCapacityOver (size' info) limit))"
  by (simp add: ReadMdatAtSample_def)

text \<open>
  While the limit is within \<open>0 .. 2^32 - 1\<close> (as the default \<open>4 * 1024 * 1024\<close> is) and the
  buffer's capacity is below \<open>2^32\<close>, the two conversions lose nothing: the call is
  refused exactly when the size exceeds the limit, the caller's buffer is reused
  exactly when its capacity is at least the size, and a new buffer has exactly the
  size.
\<close>

lemma uint_ucast_limit:
  assumes "0 \<le> sint (limit :: go_int)" "sint limit < 2 ^ 32"
  shows "uint (ucast limit :: uint32) = sint limit"
proof -
  have "uint limit = take_bit 64 (sint limit)"
    using uint_sint[of limit] by simp
  also have "\<dots> = sint limit"
    using assms by (simp add: take_bit_int_eq_self)
  finally have eq: "uint limit = sint limit" .
  have "uint (ucast limit :: uint32) = take_bit 32 (uint limit)"
    by (simp add: unsigned_ucast_eq)
  also have "\<dots> = uint limit"
    using assms eq by (simp add: take_bit_int_eq_self)
  finally show ?thesis using eq by simp
qed

lemma limit_check_in_range:
  assumes "0 \<le> sint (limit :: go_int)" "sint limit < 2 ^ 32"
  shows "(sz > (ucast limit :: uint32)) = (sint limit < uint sz)"
  using uint_ucast_limit[OF assms] by (simp add: word_less_def)

lemma cap_check_in_range:
  assumes "n < 2 ^ 32"
  shows "(sz > (of_nat n :: uint32)) = (n < unat sz)"
proof -
  have "unat (of_nat n :: uint32) = n"
    using assms by (simp add: unat_of_nat)
  then show ?thesis by (simp add: word_less_nat_alt)
qed

lemma ReadMdatAtSample_in_range:
  assumes "0 \<le> sint limit" "sint limit < 2 ^ 32" "cap buf < 2 ^ 32"
  shows "ReadMdatAtSample limit rSeek ReadFull fresh v info buf =
     (if sint limit < uint (size' info) then
        (v, buf, Some (ErrCapacityOver (size' info) limit))
      else
        (case rSeek (reader v) (offset info) of
           (r1, Some err) \<Rightarrow> (v\<lparr>reader := r1\<rparr>, buf, Some err)
         | (r1, None) \<Rightarrow>
             let avc = (if cap buf < unat (size' info)
                        then make_bytes fresh (unat (size' info))
                        else reslice buf (unat (size' info)))
             in (case ReadFull r1 (len avc) of
                   (r2, bytes, err) \<Rightarrow>
                     let avc' = avc\<lparr>backing := bytes @ drop (length bytes) (backing avc)\<rparr>
                     in (case err of
                           Some e \<Rightarrow> (v\<lparr>reader := r2\<rparr>, avc', Some e)
                         | None \<Rightarrow>
                             if length bytes \<noteq> unat (size' info)
                             then (v\<lparr>reader := r2\<rparr>, avc',
                                   Some (ErrCantRead (size' info) (length bytes)))
                             else (v\<lparr>reader := r2\<rparr>, avc', None)))))"
  unfolding ReadMdatAtSample_def limit_check_in_range[OF assms(1,2)] cap_check_in_range[OF assms(3)]
  by (rule refl)

text \<open>
  C9, evaluated. With \<open>MemoryLimitSampleCapacity = 4294967296\<close> (4 GiB) a sample of one
  byte is refused with the capacity error, although 1 does not exceed the limit; with
  the default limit the same call reads the byte into the caller's buffer.
\<close>

theorem ReadMdatAtSample_limit_truncated:
  "ReadMdatAtSample 4294967296 file_Seek file_ReadFull 7 file_reader
     (zero_VideoSampleInfo\<lparr>offset := 2, size' := 1\<rparr>) small_buf =
     (file_reader, small_buf, Some (ErrCapacityOver 1 4294967296)) \<and>
   uint (1 :: uint32) \<le> sint (4294967296 :: go_int) \<and>
   ReadMdatAtSample (4 * 1024 * 1024) file_Seek file_ReadFull 7 file_reader
     (zero_VideoSampleInfo\<lparr>offset := 2, size' := 1\<rparr>) small_buf =
     (file_reader\<lparr>reader := \<lparr>contents = [1, 2, 3, 4, 5, 6, 7, 8], position = 3\<rparr>\<rparr>,
      \<lparr>array = 3, len = 1, backing = [3, 0, 0, 0]\<rparr>, None)"
  by code_simp

section \<open>Properties of NextSample\<close>

lemma NextSample_samples_stop:
  "\<not> (sampleIdx rd < sampleEnd rd \<and> sampleIdx rd < length samples) \<Longrightarrow>
   NextSample_samples samples st rd out = (rd, out, False)"
  by (subst NextSample_samples.simps) auto

lemma NextSample_samples_yield:
  "sampleIdx rd < sampleEnd rd \<Longrightarrow> sampleIdx rd < length samples \<Longrightarrow>
   0 < Size (samples ! sampleIdx rd) \<Longrightarrow>
   NextSample_samples samples st rd out =
     (advance_cursor rd (samples ! sampleIdx rd),
      write_sample st rd (samples ! sampleIdx rd) out, True)"
  by (subst NextSample_samples.simps) (simp add: Let_def)

lemma NextSample_samples_skip:
  "sampleIdx rd < sampleEnd rd \<Longrightarrow> sampleIdx rd < length samples \<Longrightarrow>
   Size (samples ! sampleIdx rd) = 0 \<Longrightarrow>
   NextSample_samples samples st rd out =
     NextSample_samples samples st (advance_cursor rd (samples ! sampleIdx rd))
       (write_sample st rd (samples ! sampleIdx rd) out)"
  by (subst NextSample_samples.simps) (simp add: Let_def)




lemma samples_loop_induct [case_names stop yield skip]:
  assumes stop: "\<And>rd out. \<not> (sampleIdx rd < sampleEnd rd \<and> sampleIdx rd < length samples) \<Longrightarrow> P rd out"
    and yield: "\<And>rd out. sampleIdx rd < sampleEnd rd \<Longrightarrow> sampleIdx rd < length samples \<Longrightarrow>
                  0 < Size (samples ! sampleIdx rd) \<Longrightarrow> P rd out"
    and skip: "\<And>rd out. sampleIdx rd < sampleEnd rd \<Longrightarrow> sampleIdx rd < length samples \<Longrightarrow>
                  Size (samples ! sampleIdx rd) = 0 \<Longrightarrow>
                  P (advance_cursor rd (samples ! sampleIdx rd))
                    (write_sample st rd (samples ! sampleIdx rd) out) \<Longrightarrow> P rd out"
  shows "P rd out"
  using assms
proof (induction samples st rd out rule: NextSample_samples.induct)
  case (1 samples st rd out)
  show ?case
  proof (cases "sampleIdx rd < sampleEnd rd \<and> sampleIdx rd < length samples")
    case False
    then show ?thesis by (rule 1(2))
  next
    case True
    show ?thesis
    proof (cases "0 < Size (samples ! sampleIdx rd)")
      case nz: True
      then show ?thesis using True 1(3) by blast
    next
      case z: False
      then have z': "Size (samples ! sampleIdx rd) = 0"
        by (simp add: word_greater_zero_iff)
      have "P (advance_cursor rd (samples ! sampleIdx rd))
              (write_sample st rd (samples ! sampleIdx rd) out)"
        by (rule 1(1)[OF True refl refl refl z 1(2) 1(3) 1(4)])
      then show ?thesis
        using 1(4)[of rd out] True z' by blast
    qed
  qed
qed

lemma NextSample_samples_frame:
  "sampleEnd (fst (NextSample_samples samples st rd out)) = sampleEnd rd \<and>
   sampleIdx rd \<le> sampleIdx (fst (NextSample_samples samples st rd out)) \<and>
   NalLengthSize (fst (snd (NextSample_samples samples st rd out))) = NalLengthSize out"
proof (induction rd out rule: samples_loop_induct[where samples = samples and st = st])
  case (stop rd out)
  then show ?case by (simp add: NextSample_samples_stop)
next
  case (yield rd out)
  then show ?case
    by (simp add: NextSample_samples_yield advance_cursor_def write_sample_def)
next
  case (skip rd out)
  then show ?case
    by (simp add: NextSample_samples_skip advance_cursor_def write_sample_def)
qed

lemma decode_time_Suc:
  "n < length samples \<Longrightarrow>
   decode_time samples (Suc n) = decode_time samples n + ucast (TimeDelta (samples ! n))"
  by (simp add: decode_time_def take_Suc_conv_app_nth)

lemma NextSample_samples_decode:
  "decodingTime (fst (NextSample_samples samples st rd out))
     - decode_time samples (sampleIdx (fst (NextSample_samples samples st rd out)))
   = decodingTime rd - decode_time samples (sampleIdx rd)"
proof (induction rd out rule: samples_loop_induct[where samples = samples and st = st])
  case (stop rd out)
  then show ?case by (simp add: NextSample_samples_stop)
next
  case (yield rd out)
  then show ?case
    by (simp add: NextSample_samples_yield advance_cursor_def decode_time_Suc)
next
  case (skip rd out)
  then show ?case
    by (simp add: NextSample_samples_skip advance_cursor_def decode_time_Suc)
qed

lemma NextSample_samples_exit:
  "\<not> snd (snd (NextSample_samples samples st rd out)) \<Longrightarrow>
   \<not> (sampleIdx (fst (NextSample_samples samples st rd out)) < sampleEnd rd \<and>
      sampleIdx (fst (NextSample_samples samples st rd out)) < length samples)"
proof (induction rd out rule: samples_loop_induct[where samples = samples and st = st])
  case (stop rd out)
  then show ?case by (simp add: NextSample_samples_stop)
next
  case (yield rd out)
  then show ?case by (simp add: NextSample_samples_yield)
next
  case (skip rd out)
  then show ?case
    by (simp add: NextSample_samples_skip advance_cursor_def)
qed

lemma holds_sample_visit:
  "sampleIdx rd < length samples \<Longrightarrow>
   holds_sample samples st (advance_cursor rd (samples ! sampleIdx rd))
     (write_sample st rd (samples ! sampleIdx rd) out)"
  by (simp add: holds_sample_def advance_cursor_def write_sample_def)

lemma NextSample_samples_result:
  "NextSample_samples samples st rd out = (rd, out, False) \<or>
   (sampleIdx rd < sampleIdx (fst (NextSample_samples samples st rd out)) \<and>
    holds_sample samples st (fst (NextSample_samples samples st rd out))
      (fst (snd (NextSample_samples samples st rd out))))"
proof (induction rd out rule: samples_loop_induct[where samples = samples and st = st])
  case (stop rd out)
  then show ?case by (simp add: NextSample_samples_stop)
next
  case (yield rd out)
  then show ?case
    by (simp add: NextSample_samples_yield holds_sample_visit) (simp add: advance_cursor_def)
next
  case (skip rd out)
  let ?rd1 = "advance_cursor rd (samples ! sampleIdx rd)"
  let ?out1 = "write_sample st rd (samples ! sampleIdx rd) out"
  have eq: "NextSample_samples samples st rd out = NextSample_samples samples st ?rd1 ?out1"
    using skip(1-3) by (rule NextSample_samples_skip)
  have adv: "sampleIdx rd < sampleIdx ?rd1" by (simp add: advance_cursor_def)
  from skip(4) show ?case
  proof
    assume "NextSample_samples samples st ?rd1 ?out1 = (?rd1, ?out1, False)"
    then show ?thesis
      using eq adv holds_sample_visit[OF skip(2), of st out] by simp
  next
    assume "sampleIdx ?rd1 < sampleIdx (fst (NextSample_samples samples st ?rd1 ?out1)) \<and>
       holds_sample samples st (fst (NextSample_samples samples st ?rd1 ?out1))
        (fst (snd (NextSample_samples samples st ?rd1 ?out1)))"
    then show ?thesis using eq adv by simp
  qed
qed

lemma NextSample_samples_skipped:
  "sampleIdx rd \<le> j \<Longrightarrow>
   j + (if snd (snd (NextSample_samples samples st rd out)) then 1 else 0)
     < sampleIdx (fst (NextSample_samples samples st rd out)) \<Longrightarrow>
   Size (samples ! j) = 0"
proof (induction rd out rule: samples_loop_induct[where samples = samples and st = st])
  case (stop rd out)
  then show ?case by (simp add: NextSample_samples_stop)
next
  case (yield rd out)
  then show ?case by (simp add: NextSample_samples_yield advance_cursor_def)
next
  case (skip rd out)
  show ?case
  proof (cases "j = sampleIdx rd")
    case True
    then show ?thesis using skip(3) by simp
  next
    case False
    then have "sampleIdx (advance_cursor rd (samples ! sampleIdx rd)) \<le> j"
      using skip(5) by (simp add: advance_cursor_def)
    then show ?thesis
      using skip(4) skip(6) skip(1-3) by (simp add: NextSample_samples_skip)
  qed
qed

lemma NextSample_samples_flag:
  "snd (snd (NextSample_samples samples st rd out)) \<Longrightarrow>
   sampleIdx rd < sampleIdx (fst (NextSample_samples samples st rd out)) \<and>
   0 < size' (fst (snd (NextSample_samples samples st rd out)))"
proof (induction rd out rule: samples_loop_induct[where samples = samples and st = st])
  case (stop rd out)
  then show ?case by (simp add: NextSample_samples_stop)
next
  case (yield rd out)
  then show ?case
    by (simp add: NextSample_samples_yield advance_cursor_def write_sample_def)
next
  case (skip rd out)
  then show ?case
    by (simp add: NextSample_samples_skip) (simp add: advance_cursor_def)
qed



lemma NextSample_chunks_done:
  "\<not> chunkIdx rd < length (Chunks t) \<Longrightarrow>
   NextSample_chunks t st rd out = (rd, out, Some ErrEndOfStream)"
  by (subst NextSample_chunks.simps) simp

lemma NextSample_chunks_yield:
  "chunkIdx rd < length (Chunks t) \<Longrightarrow>
   snd (snd (NextSample_samples (Samples t) st (enter_chunk rd (Chunks t ! chunkIdx rd)) out)) \<Longrightarrow>
   NextSample_chunks t st rd out =
     (fst (NextSample_samples (Samples t) st (enter_chunk rd (Chunks t ! chunkIdx rd)) out),
      fst (snd (NextSample_samples (Samples t) st (enter_chunk rd (Chunks t ! chunkIdx rd)) out)),
      None)"
  by (subst NextSample_chunks.simps) (simp add: Let_def)

lemma NextSample_chunks_next:
  "chunkIdx rd < length (Chunks t) \<Longrightarrow>
   \<not> snd (snd (NextSample_samples (Samples t) st (enter_chunk rd (Chunks t ! chunkIdx rd)) out)) \<Longrightarrow>
   NextSample_chunks t st rd out =
     NextSample_chunks t st
       (leave_chunk (fst (NextSample_samples (Samples t) st (enter_chunk rd (Chunks t ! chunkIdx rd)) out)))
       (fst (snd (NextSample_samples (Samples t) st (enter_chunk rd (Chunks t ! chunkIdx rd)) out)))"
  by (subst NextSample_chunks.simps) (simp add: Let_def)




lemma chunks_loop_induct [case_names exhausted yield onward]:
  assumes "\<And>rd out. \<not> chunkIdx rd < length (Chunks (t :: Track)) \<Longrightarrow> P rd out"
    and "\<And>rd out. chunkIdx rd < length (Chunks t) \<Longrightarrow>
           snd (snd (NextSample_samples (Samples t) st (enter_chunk rd (Chunks t ! chunkIdx rd)) out)) \<Longrightarrow>
           P rd out"
    and "\<And>rd out. chunkIdx rd < length (Chunks t) \<Longrightarrow>
           \<not> snd (snd (NextSample_samples (Samples t) st (enter_chunk rd (Chunks t ! chunkIdx rd)) out)) \<Longrightarrow>
           P (leave_chunk (fst (NextSample_samples (Samples t) st (enter_chunk rd (Chunks t ! chunkIdx rd)) out)))
             (fst (snd (NextSample_samples (Samples t) st (enter_chunk rd (Chunks t ! chunkIdx rd)) out))) \<Longrightarrow>
           P rd out"
  shows "P rd out"
  using assms
proof (induction t st rd out rule: NextSample_chunks.induct)
  case (1 t st rd out)
  show ?case
  proof (cases "chunkIdx rd < length (Chunks t)")
    case False
    then show ?thesis by (rule 1(2))
  next
    case True
    let ?in = "NextSample_samples (Samples t) st (enter_chunk rd (Chunks t ! chunkIdx rd)) out"
    show ?thesis
    proof (cases "snd (snd ?in)")
      case y: True
      then show ?thesis using True 1(3) by blast
    next
      case n: False
      have "P (leave_chunk (fst ?in)) (fst (snd ?in))"
        by (rule 1(1)[OF True refl refl n 1(2) 1(3) 1(4)])
      then show ?thesis
        using 1(4)[of rd out] True n by blast
    qed
  qed
qed

lemma enter_chunk_simps [simp]:
  "sampleIdx (enter_chunk rd c) = sampleIdx rd"
  "chunkIdx (enter_chunk rd c) = chunkIdx rd"
  "decodingTime (enter_chunk rd c) = decodingTime rd"
  by (simp_all add: enter_chunk_def)

lemma leave_chunk_simps [simp]:
  "sampleIdx (leave_chunk rd) = sampleIdx rd"
  "chunkIdx (leave_chunk rd) = chunkIdx rd + 1"
  "decodingTime (leave_chunk rd) = decodingTime rd"
  "dataOffset (leave_chunk rd) = dataOffset rd"
  "sampleEnd (leave_chunk rd) = 0"
  by (simp_all add: leave_chunk_def)

lemma holds_sample_leave_chunk [simp]:
  "holds_sample samples st (leave_chunk rd) out = holds_sample samples st rd out"
  by (simp add: holds_sample_def)

lemma NextSample_chunks_error:
  "(snd (snd (NextSample_chunks t st rd out)) = None \<or>
    snd (snd (NextSample_chunks t st rd out)) = Some ErrEndOfStream) \<and>
   (snd (snd (NextSample_chunks t st rd out)) = Some ErrEndOfStream \<longrightarrow>
      length (Chunks t) \<le> chunkIdx (fst (NextSample_chunks t st rd out)))"
proof (induction rd out rule: chunks_loop_induct[where t = t and st = st])
  case (exhausted rd out)
  then show ?case by (simp add: NextSample_chunks_done)
next
  case (yield rd out)
  then show ?case by (simp add: NextSample_chunks_yield)
next
  case (onward rd out)
  then show ?case by (simp add: NextSample_chunks_next)
qed

lemma NextSample_chunks_frame:
  "sampleIdx rd \<le> sampleIdx (fst (NextSample_chunks t st rd out)) \<and>
   chunkIdx rd \<le> chunkIdx (fst (NextSample_chunks t st rd out)) \<and>
   NalLengthSize (fst (snd (NextSample_chunks t st rd out))) = NalLengthSize out"
proof (induction rd out rule: chunks_loop_induct[where t = t and st = st])
  case (exhausted rd out)
  then show ?case by (simp add: NextSample_chunks_done)
next
  case (yield rd out)
  then show ?case
    using NextSample_samples_frame[of "Samples t" st "enter_chunk rd (Chunks t ! chunkIdx rd)" out]
    by (simp add: NextSample_chunks_yield NextSample_samples_chunkIdx)
next
  case (onward rd out)
  then show ?case
    using NextSample_samples_frame[of "Samples t" st "enter_chunk rd (Chunks t ! chunkIdx rd)" out]
    by (simp add: NextSample_chunks_next NextSample_samples_chunkIdx)
qed

lemma NextSample_chunks_decode:
  "decodingTime (fst (NextSample_chunks t st rd out))
     - decode_time (Samples t) (sampleIdx (fst (NextSample_chunks t st rd out)))
   = decodingTime rd - decode_time (Samples t) (sampleIdx rd)"
proof (induction rd out rule: chunks_loop_induct[where t = t and st = st])
  case (exhausted rd out)
  then show ?case by (simp add: NextSample_chunks_done)
next
  case (yield rd out)
  then show ?case
    using NextSample_samples_decode[of "Samples t" st "enter_chunk rd (Chunks t ! chunkIdx rd)" out]
    by (simp add: NextSample_chunks_yield)
next
  case (onward rd out)
  then show ?case
    using NextSample_samples_decode[of "Samples t" st "enter_chunk rd (Chunks t ! chunkIdx rd)" out]
    by (simp add: NextSample_chunks_next)
qed

lemma NextSample_chunks_flag:
  "snd (snd (NextSample_chunks t st rd out)) = None \<Longrightarrow>
   sampleIdx rd < sampleIdx (fst (NextSample_chunks t st rd out)) \<and>
   0 < size' (fst (snd (NextSample_chunks t st rd out)))"
proof (induction rd out rule: chunks_loop_induct[where t = t and st = st])
  case (exhausted rd out)
  then show ?case by (simp add: NextSample_chunks_done)
next
  case (yield rd out)
  then show ?case
    using NextSample_samples_flag[of "Samples t" st "enter_chunk rd (Chunks t ! chunkIdx rd)" out]
    by (simp add: NextSample_chunks_yield)
next
  case (onward rd out)
  then show ?case
    using NextSample_samples_frame[of "Samples t" st "enter_chunk rd (Chunks t ! chunkIdx rd)" out]
    by (simp add: NextSample_chunks_next)
qed

lemma NextSample_chunks_skipped:
  "sampleIdx rd \<le> j \<Longrightarrow>
   j + (if snd (snd (NextSample_chunks t st rd out)) = None then 1 else 0)
     < sampleIdx (fst (NextSample_chunks t st rd out)) \<Longrightarrow>
   Size (Samples t ! j) = 0"
proof (induction rd out rule: chunks_loop_induct[where t = t and st = st])
  case (exhausted rd out)
  then show ?case by (simp add: NextSample_chunks_done)
next
  case (yield rd out)
  then show ?case
    using NextSample_samples_skipped[of "enter_chunk rd (Chunks t ! chunkIdx rd)" j "Samples t" st out]
    by (simp add: NextSample_chunks_yield)
next
  case (onward rd out)
  let ?in = "NextSample_samples (Samples t) st (enter_chunk rd (Chunks t ! chunkIdx rd)) out"
  show ?case
  proof (cases "j < sampleIdx (fst ?in)")
    case True
    then show ?thesis
      using NextSample_samples_skipped[of "enter_chunk rd (Chunks t ! chunkIdx rd)" j "Samples t" st out]
        onward(2,4) by simp
  next
    case False
    then show ?thesis
      using onward by (simp add: NextSample_chunks_next)
  qed
qed

lemma NextSample_chunks_result:
  "(fst (snd (NextSample_chunks t st rd out)) = out \<and>
    sampleIdx (fst (NextSample_chunks t st rd out)) = sampleIdx rd \<and>
    snd (snd (NextSample_chunks t st rd out)) = Some ErrEndOfStream) \<or>
   (sampleIdx rd < sampleIdx (fst (NextSample_chunks t st rd out)) \<and>
    holds_sample (Samples t) st (fst (NextSample_chunks t st rd out))
      (fst (snd (NextSample_chunks t st rd out))))"
proof (induction rd out rule: chunks_loop_induct[where t = t and st = st])
  case (exhausted rd out)
  then show ?case by (simp add: NextSample_chunks_done)
next
  case (yield rd out)
  then show ?case
    using NextSample_samples_result[of "Samples t" st "enter_chunk rd (Chunks t ! chunkIdx rd)" out]
    by (auto simp: NextSample_chunks_yield)
next
  case (onward rd out)
  let ?rd1 = "enter_chunk rd (Chunks t ! chunkIdx rd)"
  let ?in = "NextSample_samples (Samples t) st ?rd1 out"
  let ?R = "NextSample_chunks t st (leave_chunk (fst ?in)) (fst (snd ?in))"
  have eq: "NextSample_chunks t st rd out = ?R"
    using onward(1,2) by (rule NextSample_chunks_next)
  have mono: "sampleIdx (fst ?in) \<le> sampleIdx (fst ?R)"
    using NextSample_chunks_frame[of "leave_chunk (fst ?in)" t st "fst (snd ?in)"] by simp
  consider (same) "?in = (?rd1, out, False)"
    | (adv) "sampleIdx ?rd1 < sampleIdx (fst ?in)" "holds_sample (Samples t) st (fst ?in) (fst (snd ?in))"
    using NextSample_samples_result[of "Samples t" st ?rd1 out] by blast
  then show ?case
  proof cases
    case same
    then show ?thesis using onward(3) eq by simp
  next
    case adv
    from onward(3) show ?thesis
    proof
      assume "fst (snd ?R) = fst (snd ?in) \<and> sampleIdx (fst ?R) = sampleIdx (leave_chunk (fst ?in)) \<and>
              snd (snd ?R) = Some ErrEndOfStream"
      then have a: "fst (snd ?R) = fst (snd ?in)" "sampleIdx (fst ?R) = sampleIdx (fst ?in)"
        by simp_all
      have "holds_sample (Samples t) st (fst ?R) (fst (snd ?R))"
        using adv(2) a NextSample_chunks_decode[of t st "leave_chunk (fst ?in)" "fst (snd ?in)"]
        by (simp add: holds_sample_def)
      then show ?thesis using eq adv(1) a by simp
    next
      assume "sampleIdx (leave_chunk (fst ?in)) < sampleIdx (fst ?R) \<and>
              holds_sample (Samples t) st (fst ?R) (fst (snd ?R))"
      then show ?thesis using eq adv(1) by simp
    qed
  qed
qed



text \<open>
  C2. On a selected track with its codec configuration \<open>NextSample\<close> returns nil or
  \<open>ErrEndOfStream\<close>, nothing else. When it returns nil, the record's size is not zero,
  the record is the sample just before the new cursor, and every sample between the old
  cursor and that sample has size zero; the record's composition time is the old
  cursor's decode time, plus the deltas of the samples skipped on the way
  (\<open>decode_time\<close> up to the sample minus \<open>decode_time\<close> up to the old cursor), plus the
  sample's composition offset, minus \<open>_starttime\<close>. When it returns \<open>ErrEndOfStream\<close>, the
  chunk table is exhausted and every sample the cursor moved past has size zero. Either
  way the cursor's decode time has grown by the deltas of all samples it moved past.
\<close>

theorem NextSample_skips_zero_size:
  assumes "track v = Some t" "AVC t = Some avc"
    and "NextSample v out = (v', out', e)"
  shows "(e = None \<or> e = Some ErrEndOfStream) \<and>
         (e = None \<longrightarrow>
            size' out' \<noteq> 0 \<and>
            sampleIdx (read v) < sampleIdx (read v') \<and>
            sampleIdx (read v') \<le> length (Samples t) \<and>
            Number out' = of_nat (sampleIdx (read v') - 1) \<and>
            size' out' = Size (Samples t ! (sampleIdx (read v') - 1)) \<and>
            CompositionTime out' =
              decodingTime (read v)
                + (decode_time (Samples t) (sampleIdx (read v') - 1)
                    - decode_time (Samples t) (sampleIdx (read v)))
                + CompositionTimeOffset (Samples t ! (sampleIdx (read v') - 1)) - v_starttime v \<and>
            (\<forall>j. sampleIdx (read v) \<le> j \<and> j < sampleIdx (read v') - 1
                  \<longrightarrow> Size (Samples t ! j) = 0)) \<and>
         (e = Some ErrEndOfStream \<longrightarrow>
            length (Chunks t) \<le> chunkIdx (read v') \<and>
            (\<forall>j. sampleIdx (read v) \<le> j \<and> j < sampleIdx (read v')
                  \<longrightarrow> Size (Samples t ! j) = 0)) \<and>
         decodingTime (read v') =
           decodingTime (read v)
             + (decode_time (Samples t) (sampleIdx (read v'))
                 - decode_time (Samples t) (sampleIdx (read v)))"
proof -
  let ?out1 = "out\<lparr>NalLengthSize := ucast (LengthSize avc)\<rparr>"
  let ?R = "NextSample_chunks t (v_starttime v) (read v) ?out1"
  have R: "read v' = fst ?R" "out' = fst (snd ?R)" "e = snd (snd ?R)"
    using assms by (auto simp: NextSample_def Let_def)
  have err: "e = None \<or> e = Some ErrEndOfStream"
    and eos: "e = Some ErrEndOfStream \<longrightarrow> length (Chunks t) \<le> chunkIdx (read v')"
    using NextSample_chunks_error[of t "v_starttime v" "read v" ?out1] R by auto
  have dec: "decodingTime (read v') =
           decodingTime (read v)
             + (decode_time (Samples t) (sampleIdx (read v'))
                 - decode_time (Samples t) (sampleIdx (read v)))"
    using NextSample_chunks_decode[of t "v_starttime v" "read v" ?out1] R
    by (simp add: algebra_simps)
  have skipped_eos: "e = Some ErrEndOfStream \<longrightarrow>
      (\<forall>j. sampleIdx (read v) \<le> j \<and> j < sampleIdx (read v') \<longrightarrow> Size (Samples t ! j) = 0)"
    using NextSample_chunks_skipped[of "read v" _ t "v_starttime v" ?out1] R by auto
  have yield: "e = None \<longrightarrow>
            size' out' \<noteq> 0 \<and>
            sampleIdx (read v) < sampleIdx (read v') \<and>
            sampleIdx (read v') \<le> length (Samples t) \<and>
            Number out' = of_nat (sampleIdx (read v') - 1) \<and>
            size' out' = Size (Samples t ! (sampleIdx (read v') - 1)) \<and>
            CompositionTime out' =
              decodingTime (read v)
                + (decode_time (Samples t) (sampleIdx (read v') - 1)
                    - decode_time (Samples t) (sampleIdx (read v)))
                + CompositionTimeOffset (Samples t ! (sampleIdx (read v') - 1)) - v_starttime v \<and>
            (\<forall>j. sampleIdx (read v) \<le> j \<and> j < sampleIdx (read v') - 1
                  \<longrightarrow> Size (Samples t ! j) = 0)"
  proof
    assume none: "e = None"
    have fl: "sampleIdx (read v) < sampleIdx (read v')" "0 < size' out'"
      using NextSample_chunks_flag[of t "v_starttime v" "read v" ?out1] none R by simp_all
    then have hs: "holds_sample (Samples t) (v_starttime v) (read v') out'"
      using NextSample_chunks_result[of t "v_starttime v" "read v" ?out1] R by auto
    let ?i = "sampleIdx (read v') - 1"
    have i: "?i < length (Samples t)" "Suc ?i = sampleIdx (read v')"
      using hs by (auto simp: holds_sample_def)
    have "decode_time (Samples t) (sampleIdx (read v')) =
            decode_time (Samples t) ?i + ucast (TimeDelta (Samples t ! ?i))"
      using decode_time_Suc[OF i(1)] i(2) by simp
    then have ct: "CompositionTime out' =
        decodingTime (read v)
          + (decode_time (Samples t) ?i - decode_time (Samples t) (sampleIdx (read v)))
          + CompositionTimeOffset (Samples t ! ?i) - v_starttime v"
      using hs dec by (simp add: holds_sample_def)
    have sk: "\<forall>j. sampleIdx (read v) \<le> j \<and> j < ?i \<longrightarrow> Size (Samples t ! j) = 0"
      using NextSample_chunks_skipped[of "read v" _ t "v_starttime v" ?out1] R none by auto
    show "size' out' \<noteq> 0 \<and>
            sampleIdx (read v) < sampleIdx (read v') \<and>
            sampleIdx (read v') \<le> length (Samples t) \<and>
            Number out' = of_nat ?i \<and>
            size' out' = Size (Samples t ! ?i) \<and>
            CompositionTime out' =
              decodingTime (read v)
                + (decode_time (Samples t) ?i - decode_time (Samples t) (sampleIdx (read v)))
                + CompositionTimeOffset (Samples t ! ?i) - v_starttime v \<and>
            (\<forall>j. sampleIdx (read v) \<le> j \<and> j < ?i \<longrightarrow> Size (Samples t ! j) = 0)"
      using fl hs ct sk by (simp add: holds_sample_def)
  qed
  show ?thesis
    using err eos dec skipped_eos yield by blast
qed

text \<open>On the track with sizes 100, 0, 100, 0: after the first read the next call skips
  sample 1 and returns sample 2 with composition time 6000; the call after that skips
  sample 3 and returns \<open>ErrEndOfStream\<close>.\<close>

theorem NextSample_skips_zero_size_witness:
  "track gap_reader_at1 = Some gap_track \<and>
   AVC gap_track = Some \<lparr>LengthSize = 4, Width = 640, Height = 480\<rparr> \<and>
   NextSample gap_reader_at1 gap_sample0 = (gap_reader_at3, gap_sample2, None) \<and>
   size' gap_sample2 \<noteq> 0 \<and>
   Size (Samples gap_track ! 1) = 0 \<and>
   CompositionTime gap_sample2 = 6000 \<and>
   decodingTime (read gap_reader_at3) =
     decodingTime (read gap_reader_at1)
       + (decode_time (Samples gap_track) (sampleIdx (read gap_reader_at3))
           - decode_time (Samples gap_track) (sampleIdx (read gap_reader_at1))) \<and>
   NextSample gap_reader_at3 gap_sample2 = (gap_reader_end, gap_sample3, Some ErrEndOfStream) \<and>
   length (Chunks gap_track) \<le> chunkIdx (read gap_reader_end)"
proof -
  have h1: "track gap_reader_at1 = Some gap_track"
    by (simp add: gap_reader_at1_def gap_reader_def)
  have h1': "track gap_reader_at3 = Some gap_track"
    by (simp add: gap_reader_at3_def gap_reader_def)
  have h2: "AVC gap_track = Some \<lparr>LengthSize = 4, Width = 640, Height = 480\<rparr>"
    by (simp add: gap_track_def)
  have h3: "NextSample gap_reader_at1 gap_sample0 = (gap_reader_at3, gap_sample2, None)"
    by code_simp
  have h3': "NextSample gap_reader_at3 gap_sample2 = (gap_reader_end, gap_sample3, Some ErrEndOfStream)"
    by code_simp
  have nz: "size' gap_sample2 \<noteq> 0"
    using NextSample_skips_zero_size[OF h1 h2 h3] by blast
  have dec: "decodingTime (read gap_reader_at3) =
     decodingTime (read gap_reader_at1)
       + (decode_time (Samples gap_track) (sampleIdx (read gap_reader_at3))
           - decode_time (Samples gap_track) (sampleIdx (read gap_reader_at1)))"
    using NextSample_skips_zero_size[OF h1 h2 h3] by blast
  have eos: "length (Chunks gap_track) \<le> chunkIdx (read gap_reader_end)"
    using NextSample_skips_zero_size[OF h1' h2 h3'] by blast
  have z: "Size (Samples gap_track ! 1) = 0"
    by (simp add: gap_track_def)
  have ct: "CompositionTime gap_sample2 = 6000"
    by (simp add: gap_sample2_def)
  show ?thesis
    by (intro conjI h1 h2 h3 nz z ct dec h3' eos)
qed


lemma sint_of_nat_index:
  "n < 2 ^ 63 \<Longrightarrow> sint (of_nat n :: 64 word) = int n"
  by (simp add: signed_of_nat signed_take_bit_int_eq_self)

lemma NextSample_yield_index:
  assumes "track v = Some t" "NextSample v out = (v', out', None)"
  shows "sampleIdx (read v) < sampleIdx (read v') \<and>
         sampleIdx (read v') \<le> length (Samples t) \<and>
         Number out' = of_nat (sampleIdx (read v') - 1) \<and>
         0 < Size (Samples t ! (sampleIdx (read v') - 1)) \<and>
         (\<forall>j. sampleIdx (read v) \<le> j \<and> j < sampleIdx (read v') - 1 \<longrightarrow> Size (Samples t ! j) = 0)"
proof -
  obtain avc where avc: "AVC t = Some avc"
    using assms by (cases "AVC t") (auto simp: NextSample_def)
  let ?out1 = "out\<lparr>NalLengthSize := ucast (LengthSize avc)\<rparr>"
  let ?R = "NextSample_chunks t (v_starttime v) (read v) ?out1"
  have R: "read v' = fst ?R" "out' = fst (snd ?R)" "None = snd (snd ?R)"
    using assms avc by (auto simp: NextSample_def Let_def)
  have fl: "sampleIdx (read v) < sampleIdx (read v')" "0 < size' out'"
    using NextSample_chunks_flag[of t "v_starttime v" "read v" ?out1] R by simp_all
  then have hs: "holds_sample (Samples t) (v_starttime v) (read v') out'"
    using NextSample_chunks_result[of t "v_starttime v" "read v" ?out1] R by auto
  have sk: "\<forall>j. sampleIdx (read v) \<le> j \<and> j < sampleIdx (read v') - 1 \<longrightarrow> Size (Samples t ! j) = 0"
    using NextSample_chunks_skipped[of "read v" _ t "v_starttime v" ?out1] R by auto
  show ?thesis
    using fl hs sk by (simp add: holds_sample_def)
qed

lemma NextSample_track:
  "NextSample v out = (v', out', e) \<Longrightarrow> track v' = track v \<and> v_starttime v' = v_starttime v"
  by (auto simp: NextSample_def Let_def split: option.splits)

text \<open>
  C7, as the code has it. \<open>Number\<close> is the index of the sample in the sample table, not
  a count of the records returned. For two successful calls of \<open>NextSample\<close> in a row
  (on a track with fewer than \<open>2^63\<close> samples, as every Go slice has) the later \<open>Number\<close>
  is strictly greater, every sample with an index strictly between the two has size
  zero, so the difference is 1 plus the number of zero-size samples skipped between
  them; it is exactly 1 when the sample right after the earlier one has non-zero size.
\<close>

theorem NextSample_numbers_increase:
  assumes "track v = Some t" "length (Samples t) < 2 ^ 63"
    and "NextSample v out = (v1, out1, None)"
    and "NextSample v1 out1' = (v2, out2, None)"
  shows "sint (Number out1) < sint (Number out2) \<and>
         (\<forall>j. sint (Number out1) < int j \<and> int j < sint (Number out2)
               \<longrightarrow> Size (Samples t ! j) = 0) \<and>
         sint (Number out2) - sint (Number out1) = 1 + (int (sampleIdx (read v2)) - int (sampleIdx (read v1)) - 1) \<and>
         (0 < Size (Samples t ! sampleIdx (read v1)) \<longrightarrow> Number out2 = Number out1 + 1)"
proof -
  have t1: "track v1 = Some t" using NextSample_track[OF assms(3)] assms(1) by simp
  note a = NextSample_yield_index[OF assms(1) assms(3)]
  note b = NextSample_yield_index[OF t1 assms(4)]
  define i1 where "i1 = sampleIdx (read v1) - 1"
  define i2 where "i2 = sampleIdx (read v2) - 1"
  have s1: "sampleIdx (read v1) = Suc i1" and s2: "sampleIdx (read v2) = Suc i2"
    using a b by (simp_all add: i1_def i2_def)
  have lt: "i1 < i2" "i2 < length (Samples t)" using a b s1 s2 by auto
  have N: "Number out1 = of_nat i1" "Number out2 = of_nat i2"
    using a b by (simp_all only: i1_def i2_def)
  have n1: "sint (Number out1) = int i1" "sint (Number out2) = int i2"
    using lt assms(2) unfolding N by (simp_all add: sint_of_nat_index)
  have zero: "\<forall>j. Suc i1 \<le> j \<and> j < i2 \<longrightarrow> Size (Samples t ! j) = 0"
    using b unfolding s1 i2_def by simp
  have between: "\<forall>j. sint (Number out1) < int j \<and> int j < sint (Number out2)
               \<longrightarrow> Size (Samples t ! j) = 0"
    using zero unfolding n1 by auto
  have adj: "0 < Size (Samples t ! sampleIdx (read v1)) \<longrightarrow> Number out2 = Number out1 + 1"
  proof
    assume nz: "0 < Size (Samples t ! sampleIdx (read v1))"
    have "\<not> Suc i1 < i2"
      using zero nz unfolding s1 by (auto simp: word_greater_zero_iff)
    then have "i2 = Suc i1" using lt by auto
    then show "Number out2 = Number out1 + 1" unfolding N by simp
  qed
  have diff: "sint (Number out2) - sint (Number out1)
                = 1 + (int (sampleIdx (read v2)) - int (sampleIdx (read v1)) - 1)"
    unfolding n1 s1 s2 by simp
  show ?thesis using lt n1 between adj diff by simp
qed

text \<open>On the track with sizes 100, 0, 100, 0 the first two reads return the numbers 0
  and 2, not 0 and 1.\<close>

theorem NextSample_numbers_increase_counterexample:
  "NextSample gap_reader zero_VideoSampleInfo = (gap_reader_at1, gap_sample0, None) \<and>
   NextSample gap_reader_at1 gap_sample0 = (gap_reader_at3, gap_sample2, None) \<and>
   Number gap_sample0 = 0 \<and> Number gap_sample2 = 2 \<and>
   Number gap_sample2 \<noteq> Number gap_sample0 + 1"
  by code_simp

theorem NextSample_numbers_increase_witness:
  "track gap_reader = Some gap_track \<and>
   length (Samples gap_track) < 2 ^ 63 \<and>
   NextSample gap_reader zero_VideoSampleInfo = (gap_reader_at1, gap_sample0, None) \<and>
   NextSample gap_reader_at1 gap_sample0 = (gap_reader_at3, gap_sample2, None) \<and>
   sint (Number gap_sample0) < sint (Number gap_sample2) \<and>
   sint (Number gap_sample2) - sint (Number gap_sample0)
     = 1 + (int (sampleIdx (read gap_reader_at3)) - int (sampleIdx (read gap_reader_at1)) - 1)"
proof -
  have h1: "track gap_reader = Some gap_track"
    by (simp add: gap_reader_def)
  have h2: "length (Samples gap_track) < 2 ^ 63"
    by (simp add: gap_track_def)
  have h3: "NextSample gap_reader zero_VideoSampleInfo = (gap_reader_at1, gap_sample0, None)"
    by code_simp
  have h4: "NextSample gap_reader_at1 gap_sample0 = (gap_reader_at3, gap_sample2, None)"
    by code_simp
  have less: "sint (Number gap_sample0) < sint (Number gap_sample2)"
    using NextSample_numbers_increase[OF h1 h2 h3 h4] by blast
  have diff: "sint (Number gap_sample2) - sint (Number gap_sample0)
     = 1 + (int (sampleIdx (read gap_reader_at3)) - int (sampleIdx (read gap_reader_at1)) - 1)"
    using NextSample_numbers_increase[OF h1 h2 h3 h4] by blast
  show ?thesis
    by (intro conjI h1 h2 h3 h4 less diff)
qed














lemma visits_from_Nil [simp]: "visits_from samples i []"
  by (simp add: visits_from_def)
























end
